theory Spec2Isabelle
  imports Complex_Main
begin

section \<open>Values of the notebook\<close>

text \<open>
  The notebook \<^verbatim>\<open>notebooks/eventclf/LLM Experiment.ipynb\<close> runs a prompted classifier
  over two events and scores it. A prediction is a number or the float NaN; the
  ground-truth labels \<^verbatim>\<open>y\<close> are integers read from a CSV column. The labels are 0 and 1 in
  every statement about their values, so the integers are unbounded here: on these labels
  numpy's 64-bit arithmetic computes \<open>|1 - y|\<close> without wrapping.
\<close>

datatype error = IndexError | KeyError | ValueError

datatype pred = Num int | NaN

text \<open>\<^verbatim>\<open>np.isnan(i)\<close> on one entry of the prediction list.\<close>

definition isnan :: "pred \<Rightarrow> bool" where
  "isnan i = (case i of NaN \<Rightarrow> True | Num v \<Rightarrow> False)"

text \<open>A Python float as the metrics return it: an exact rational here, or NaN.\<close>

datatype score = Score rat | ScoreNaN

section \<open>Post-processing of the raw predictions (line 229)\<close>

text \<open>
  \<^verbatim>\<open>res_clean = np.array([abs(1-event_dict[f"y_{run}"][idx]) if np.isnan(i) else i
                        for idx,i in enumerate(res)])\<close>

  The comprehension visits the pairs of \<^verbatim>\<open>enumerate(res)\<close> in order. The label array is
  indexed only where the entry is NaN; an index past its end raises IndexError.
\<close>

fun clean_entry :: "int list \<Rightarrow> nat \<times> pred \<Rightarrow> error + pred" where
  "clean_entry y (idx, i) =
     (if isnan i
      then (if idx < length y then Inr (Num (abs (1 - y ! idx))) else Inl IndexError)
      else Inr i)"

text \<open>A list comprehension whose element expression may raise: the first raise ends it.\<close>

fun comprehension :: "('a \<Rightarrow> error + 'b) \<Rightarrow> 'a list \<Rightarrow> error + 'b list" where
  "comprehension f [] = Inr []"
| "comprehension f (x # xs) =
     (case f x of
        Inl e \<Rightarrow> Inl e
      | Inr v \<Rightarrow> (case comprehension f xs of Inl e \<Rightarrow> Inl e | Inr vs \<Rightarrow> Inr (v # vs)))"

definition res_clean :: "pred list \<Rightarrow> int list \<Rightarrow> error + pred list" where
  "res_clean res y = comprehension (clean_entry y) (enumerate 0 res)"

section \<open>Scores\<close>

text \<open>
  Modelled from the spec: \<^verbatim>\<open>f1_score\<close>, \<^verbatim>\<open>precision_score\<close>, \<^verbatim>\<open>recall_score\<close> and
  \<^verbatim>\<open>accuracy_score\<close> are imported from \<^verbatim>\<open>sklearn.metrics\<close>, whose code is no part of the
  repository. The spec calls them the standard binary-classification scores; accuracy is
  the fraction of positions where prediction and label agree. They are called as
  \<^verbatim>\<open>score(y_true, y_pred)\<close> with the library's defaults (positive label 1, a score with
  a zero denominator is 0). The library refuses arguments of different lengths, a NaN
  among the predictions, and, for the three binary scores, more than two labels or two
  labels without the positive one: a ValueError. The mean over no entry is NaN.
\<close>

definition agree :: "int \<times> pred \<Rightarrow> bool" where
  "agree p = (snd p = Num (fst p))"

definition consistent :: "int list \<Rightarrow> pred list \<Rightarrow> bool" where
  "consistent y_true y_pred = (length y_true = length y_pred \<and> NaN \<notin> set y_pred)"

definition accuracy_score :: "int list \<Rightarrow> pred list \<Rightarrow> error + score" where
  "accuracy_score y_true y_pred =
     (if \<not> consistent y_true y_pred then Inl ValueError
      else if y_true = [] then Inr ScoreNaN
      else Inr (Score (of_nat (length (filter agree (zip y_true y_pred))) /
                       of_nat (length y_true))))"

fun num_values :: "pred list \<Rightarrow> int list" where
  "num_values [] = []"
| "num_values (Num v # ps) = v # num_values ps"
| "num_values (NaN # ps) = num_values ps"

definition present_labels :: "int list \<Rightarrow> pred list \<Rightarrow> int list" where
  "present_labels y_true y_pred = remdups (y_true @ num_values y_pred)"

definition binary_targets :: "int list \<Rightarrow> pred list \<Rightarrow> bool" where
  "binary_targets y_true y_pred =
     (consistent y_true y_pred \<and>
      length (present_labels y_true y_pred) \<le> 2 \<and>
      (1 \<in> set (present_labels y_true y_pred) \<or> length (present_labels y_true y_pred) < 2))"

definition true_pos :: "int list \<Rightarrow> pred list \<Rightarrow> nat" where
  "true_pos y_true y_pred =
     length (filter (\<lambda>p. fst p = 1 \<and> snd p = Num 1) (zip y_true y_pred))"

definition false_pos :: "int list \<Rightarrow> pred list \<Rightarrow> nat" where
  "false_pos y_true y_pred =
     length (filter (\<lambda>p. fst p \<noteq> 1 \<and> snd p = Num 1) (zip y_true y_pred))"

definition false_neg :: "int list \<Rightarrow> pred list \<Rightarrow> nat" where
  "false_neg y_true y_pred =
     length (filter (\<lambda>p. fst p = 1 \<and> snd p \<noteq> Num 1) (zip y_true y_pred))"

definition ratio :: "nat \<Rightarrow> nat \<Rightarrow> score" where
  "ratio a b = Score (if b = 0 then 0 else of_nat a / of_nat b)"

definition precision_score :: "int list \<Rightarrow> pred list \<Rightarrow> error + score" where
  "precision_score y_true y_pred =
     (if \<not> binary_targets y_true y_pred then Inl ValueError
      else Inr (ratio (true_pos y_true y_pred)
                      (true_pos y_true y_pred + false_pos y_true y_pred)))"

definition recall_score :: "int list \<Rightarrow> pred list \<Rightarrow> error + score" where
  "recall_score y_true y_pred =
     (if \<not> binary_targets y_true y_pred then Inl ValueError
      else Inr (ratio (true_pos y_true y_pred)
                      (true_pos y_true y_pred + false_neg y_true y_pred)))"

definition f1_score :: "int list \<Rightarrow> pred list \<Rightarrow> error + score" where
  "f1_score y_true y_pred =
     (if \<not> binary_targets y_true y_pred then Inl ValueError
      else Inr (ratio (2 * true_pos y_true y_pred)
                      (2 * true_pos y_true y_pred + false_pos y_true y_pred +
                       false_neg y_true y_pred)))"

section \<open>The data of the notebook\<close>

text \<open>
  A data frame read from a CSV file, as far as the notebook uses it: its rows, each with
  the columns \<^verbatim>\<open>text\<close> and \<^verbatim>\<open>y\<close>.
\<close>

type_synonym dataframe = "(string \<times> int) list"

text \<open>
  One value of \<^verbatim>\<open>data_dict\<close>, with the keys the cells up to line 149 give it:
  \<^verbatim>\<open>train_data\<close>, \<^verbatim>\<open>test_data\<close>, \<^verbatim>\<open>event\<close>, \<^verbatim>\<open>event_description\<close>, \<^verbatim>\<open>examples\<close>,
  \<^verbatim>\<open>X_train\<close>, \<^verbatim>\<open>X_test\<close>, \<^verbatim>\<open>y_train\<close>, \<^verbatim>\<open>y_test\<close>.
\<close>

record event_dict =
  train_data :: dataframe
  test_data :: dataframe
  ed_event :: string
  ed_event_description :: string
  ed_examples :: string
  X_train :: "string list"
  X_test :: "string list"
  y_train :: "int list"
  y_test :: "int list"

text \<open>The keyword arguments of the prompt template (lines 218 to 222).\<close>

record prompt_dict =
  pd_event :: string
  pd_event_description :: string
  pd_examples :: string

text \<open>
  One entry of \<^verbatim>\<open>res_list\<close> (lines 230 to 239), with the keys \<^verbatim>\<open>event\<close>, \<^verbatim>\<open>stratagy\<close>,
  \<^verbatim>\<open>run\<close>, \<^verbatim>\<open>res\<close>, \<^verbatim>\<open>f1\<close>, \<^verbatim>\<open>precision\<close>, \<^verbatim>\<open>recall\<close>, \<^verbatim>\<open>accuracy\<close>.
\<close>

record res_dict =
  rd_event :: string
  rd_stratagy :: string
  rd_run :: string
  rd_res :: "pred list"
  rd_f1 :: score
  rd_precision :: score
  rd_recall :: score
  rd_accuracy :: score

text \<open>
  The state the cells share: the two dictionaries' contents, the \<^verbatim>\<open>EventLLM\<close> object
  (its class is outside the notebook, so its state is a type parameter) and the files
  written.
\<close>

record 's notebook =
  data_dict :: "(string \<times> event_dict) list"
  res_list :: "res_dict list"
  event_llm :: 's
  files :: "string \<rightharpoonup> string"

definition nl :: string where
  "nl = [CHR 0x0A]"

definition dq :: string where
  "dq = [CHR 0x22]"

definition data_lists :: "string list" where
  "data_lists = [''farnborough'', ''rugby'']"

definition csv_path :: "string \<Rightarrow> string \<Rightarrow> string" where
  "csv_path event df = ''../../../../data/processed_data/'' @ event @ ''_'' @ df @ ''.csv''"

definition farnborough_event :: string where
  "farnborough_event = ''Farnborough International Airshow 2024''"

definition farnborough_description :: string where
  "farnborough_description =
     ''An industry convention for those in the Aerospace, aviation and defence industry to showcase advancements and innovations in those areas''"

definition farnborough_examples :: string where
  "farnborough_examples =
     nl @
     ''learning from theses examples classify the post:'' @ nl @
     nl @
     ''EXAMPLE 1:'' @ nl @
     ''Post: Excellent flying seen today, always a thrill seeing the new E-156, very loud and very fast'' @ nl @
     ''Response: Yes '' @ nl @
     nl @
     ''EXAMPLE 2: '' @ nl @
     ''Post:Succesful first day of @FIAFarnborough, signed a deal with @UserHandle on fuel emmision standards'' @ nl @
     ''Response: Yes '' @ nl @
     nl @
     ''EXAMPLE 3: '' @ nl @
     ''Post: Cant believe how amazing it was seeing the F-14 aicrafts #putneyairshow'' @ nl @
     ''Response: No'' @ nl @
     nl @
     ''EXAMPLE 4: '' @ nl @
     ''Post: Farnborough Airshow facing a wave of protests around support for Qatar'' @ nl @
     ''Response: No'' @ nl"

definition rugby_event :: string where
  "rugby_event = ''Scottish Rugby Autumn Internationals Scotland Vs New Zealand''"

definition rugby_description :: string where
  "rugby_description =
     ''A rugby match played by Scotland against New Zealand at Murrayfield stadium''"

definition rugby_examples :: string where
  "rugby_examples =
     nl @
     ''learning from theses examples classify the post:'' @ nl @
     ''EXAMPLE 1:'' @ nl @
     ''Post: Cannot believe the queues at murrayfield, going to miss the rugby at this rate'' @ nl @
     ''Response: Yes '' @ nl @
     nl @
     ''EXAMPLE 2: '' @ nl @
     ''Post:Such a heartwarming dedication to to Doddy in the stadium'' @ nl @
     ''Response: Yes '' @ nl @
     nl @
     ''EXAMPLE 3: '' @ nl @
     ''Post: We dont need to be giving away fouls like that @Scottishrugby, PLAY BETTER!!!! '' @ nl @
     ''Response: No'' @ nl @
     nl @
     ''EXAMPLE 4: '' @ nl @
     ''Post: Love to see it!! The all blacks smashing england. DISTRUCTION'' @ nl @
     ''Response: No'' @ nl @
     ''_________'' @ nl"

definition EVENT_ATTENTENCE_TEMPLATE :: string where
  "EVENT_ATTENTENCE_TEMPLATE =
     nl @
     ''Your task is to determine whether a social media posts suggests that the author or another person attended a particular event.'' @ nl @
     nl @
     ''{event} is {event_description}'' @ nl @
     nl @
     ''{examples}'' @ nl @
     nl @
     ''Instructions:'' @ nl @
     ''   - Yes: Consider the event description provided. Classify as '' @ dq @ ''Yes'' @ dq @ '' if it includes mention or implication that the author participated in or will participate in, or was physically present at the event.'' @ nl @
     ''   - No: Classify as '' @ dq @ ''No'' @ dq @ '' if the social media post does not suggest the author attended the event, it is about the event but does not indicate past or future attendance.'' @ nl @
     ''   '' @ nl @
     ''Ensure the post references the specific event and indicates the poster being physically present'' @ nl @
     ''Return only either '' @ dq @ ''Yes'' @ dq @ '' or '' @ dq @ ''No'' @ dq @ nl @
     nl @
     nl @
     ''Post: {post}'' @ nl @
     nl @
     ''Response:'' @ nl"

text \<open>
  The cells of lines 64 to 149 for one event: the two data frames are read, the three
  prompt strings are stored, every text is cleaned with \<^verbatim>\<open>_clean_text(text,[])\<close> and the
  labels are taken from the column \<^verbatim>\<open>y\<close>. Reading a CSV file and \<^verbatim>\<open>_clean_text\<close> (a
  function of the package \<^verbatim>\<open>eventclf\<close>) are parameters.
\<close>

definition load_event ::
  "(string \<Rightarrow> dataframe) \<Rightarrow> (string \<Rightarrow> string list \<Rightarrow> string) \<Rightarrow>
   string \<Rightarrow> string \<Rightarrow> string \<Rightarrow> string \<Rightarrow> event_dict" where
  "load_event read_csv clean_text event name description exs =
     \<lparr>train_data = read_csv (csv_path event ''train''),
      test_data = read_csv (csv_path event ''test''),
      ed_event = name,
      ed_event_description = description,
      ed_examples = exs,
      X_train = map (\<lambda>text. clean_text text []) (map fst (read_csv (csv_path event ''train''))),
      X_test = map (\<lambda>text. clean_text text []) (map fst (read_csv (csv_path event ''test''))),
      y_train = map snd (read_csv (csv_path event ''train'')),
      y_test = map snd (read_csv (csv_path event ''test''))\<rparr>"

text \<open>
  The cells of lines 85 to 135 store the event name, its description and the examples under
  the keys \<^verbatim>\<open>farnborough\<close> and \<^verbatim>\<open>rugby\<close>, the two entries of \<^verbatim>\<open>data_lists\<close>.
\<close>

definition prompts :: "string \<Rightarrow> string \<times> string \<times> string" where
  "prompts event =
     (if event = ''farnborough''
      then (farnborough_event, farnborough_description, farnborough_examples)
      else (rugby_event, rugby_description, rugby_examples))"

text \<open>
  \<^verbatim>\<open>data_dict\<close> as the loop finds it: one entry per name of \<^verbatim>\<open>data_lists\<close>, in that order (a
  Python dict keeps the order of insertion).
\<close>

definition load_data_dict ::
  "(string \<Rightarrow> dataframe) \<Rightarrow> (string \<Rightarrow> string list \<Rightarrow> string) \<Rightarrow>
   (string \<times> event_dict) list" where
  "load_data_dict read_csv clean_text =
     map (\<lambda>event.
            (event,
             load_event read_csv clean_text event
               (fst (prompts event)) (fst (snd (prompts event))) (snd (snd (prompts event)))))
         data_lists"

section \<open>The experiment loop (lines 215 to 240)\<close>

text \<open>\<^verbatim>\<open>event_dict[f"X_{run}"]\<close> and \<^verbatim>\<open>event_dict[f"y_{run}"]\<close>: a KeyError for any other run.\<close>

definition get_X :: "event_dict \<Rightarrow> string \<Rightarrow> error + string list" where
  "get_X ed run =
     (if run = ''train'' then Inr (X_train ed)
      else if run = ''test'' then Inr (X_test ed)
      else Inl KeyError)"

definition get_y :: "event_dict \<Rightarrow> string \<Rightarrow> error + int list" where
  "get_y ed run =
     (if run = ''train'' then Inr (y_train ed)
      else if run = ''test'' then Inr (y_test ed)
      else Inl KeyError)"

definition make_prompt_dict :: "event_dict \<Rightarrow> string \<Rightarrow> prompt_dict" where
  "make_prompt_dict ed exs =
     \<lparr>pd_event = ed_event ed, pd_event_description = ed_event_description ed,
      pd_examples = exs\<rparr>"

definition stratagy_of :: "string \<Rightarrow> string" where
  "stratagy_of exs = (if length exs > 0 then ''few shot'' else ''zero shot'')"

text \<open>
  \<^verbatim>\<open>event_llm.predict(prompt_template, prompt_inputs, posts)\<close> is a method of a class outside
  the notebook: a parameter that takes the object's state and returns the predictions with
  the new state.
\<close>

type_synonym 's predict =
  "'s \<Rightarrow> string \<Rightarrow> prompt_dict \<Rightarrow> string list \<Rightarrow> pred list \<times> 's"

text \<open>The body of the innermost loop (lines 224 to 240).\<close>

definition run_once ::
  "'s predict \<Rightarrow> string \<Rightarrow> event_dict \<Rightarrow> string \<Rightarrow> string \<Rightarrow>
   's notebook \<Rightarrow> error + 's notebook" where
  "run_once predict event ed exs run s =
     (case get_X ed run of
        Inl e \<Rightarrow> Inl e
      | Inr posts \<Rightarrow>
     (case predict (event_llm s) EVENT_ATTENTENCE_TEMPLATE (make_prompt_dict ed exs) posts of
        (res, llm) \<Rightarrow>
     (case get_y ed run of
        Inl e \<Rightarrow> Inl e
      | Inr y \<Rightarrow>
     (case res_clean res y of
        Inl e \<Rightarrow> Inl e
      | Inr rc \<Rightarrow>
     (case f1_score y rc of
        Inl e \<Rightarrow> Inl e
      | Inr f1 \<Rightarrow>
     (case precision_score y rc of
        Inl e \<Rightarrow> Inl e
      | Inr precision \<Rightarrow>
     (case recall_score y rc of
        Inl e \<Rightarrow> Inl e
      | Inr recall \<Rightarrow>
     (case accuracy_score y rc of
        Inl e \<Rightarrow> Inl e
      | Inr accuracy \<Rightarrow>
          Inr (s\<lparr>res_list := res_list s @
                    [\<lparr>rd_event = event, rd_stratagy = stratagy_of exs, rd_run = run,
                      rd_res = res, rd_f1 = f1, rd_precision = precision,
                      rd_recall = recall, rd_accuracy = accuracy\<rparr>],
                 event_llm := llm\<rparr>)))))))))"

text \<open>\<^verbatim>\<open>for run in ['train','test']\<close>\<close>

fun run_loop ::
  "'s predict \<Rightarrow> string \<Rightarrow> event_dict \<Rightarrow> string \<Rightarrow> string list \<Rightarrow>
   's notebook \<Rightarrow> error + 's notebook" where
  "run_loop predict event ed exs [] s = Inr s"
| "run_loop predict event ed exs (run # runs) s =
     (case run_once predict event ed exs run s of
        Inl e \<Rightarrow> Inl e
      | Inr s' \<Rightarrow> run_loop predict event ed exs runs s')"

text \<open>\<^verbatim>\<open>for examples in [event_dict['examples'],""]\<close>\<close>

fun examples_loop ::
  "'s predict \<Rightarrow> string \<Rightarrow> event_dict \<Rightarrow> string list \<Rightarrow>
   's notebook \<Rightarrow> error + 's notebook" where
  "examples_loop predict event ed [] s = Inr s"
| "examples_loop predict event ed (exs # rest) s =
     (case run_loop predict event ed exs [''train'', ''test''] s of
        Inl e \<Rightarrow> Inl e
      | Inr s' \<Rightarrow> examples_loop predict event ed rest s')"

text \<open>\<^verbatim>\<open>for event,event_dict in data_dict.items()\<close>\<close>

fun event_loop ::
  "'s predict \<Rightarrow> (string \<times> event_dict) list \<Rightarrow> 's notebook \<Rightarrow> error + 's notebook" where
  "event_loop predict [] s = Inr s"
| "event_loop predict ((event, ed) # items) s =
     (case examples_loop predict event ed [ed_examples ed, ''''] s of
        Inl e \<Rightarrow> Inl e
      | Inr s' \<Rightarrow> event_loop predict items s')"

text \<open>The cell of lines 215 to 240: \<^verbatim>\<open>res_list = []\<close>, then the three nested loops.\<close>

definition run_experiment :: "'s predict \<Rightarrow> 's notebook \<Rightarrow> error + 's notebook" where
  "run_experiment predict s = event_loop predict (data_dict s) (s\<lparr>res_list := []\<rparr>)"

text \<open>
  The cell of lines 260 and 261: \<^verbatim>\<open>json.dump(res_list,fp)\<close> into \<^verbatim>\<open>llm_results.json\<close>,
  opened for writing. The encoder is the library's, a parameter.
\<close>

definition write_results :: "(res_dict list \<Rightarrow> string) \<Rightarrow> 's notebook \<Rightarrow> 's notebook" where
  "write_results json_dumps s =
     s\<lparr>files := (files s)(''llm_results.json'' \<mapsto> json_dumps (res_list s))\<rparr>"

text \<open>The cells in order, from the files on disk and a fresh \<^verbatim>\<open>EventLLM\<close> object.\<close>

definition run_notebook ::
  "(string \<Rightarrow> dataframe) \<Rightarrow> (string \<Rightarrow> string list \<Rightarrow> string) \<Rightarrow> 's predict \<Rightarrow>
   (res_dict list \<Rightarrow> string) \<Rightarrow> 's \<Rightarrow> (string \<rightharpoonup> string) \<Rightarrow> error + 's notebook" where
  "run_notebook read_csv clean_text predict json_dumps llm fs =
     (case run_experiment predict
             \<lparr>data_dict = load_data_dict read_csv clean_text, res_list = [],
              event_llm = llm, files = fs\<rparr> of
        Inl e \<Rightarrow> Inl e
      | Inr s \<Rightarrow> Inr (write_results json_dumps s))"

section \<open>The prediction wrapper\<close>

text \<open>
  Modelled from the spec: the class \<^verbatim>\<open>EventLLM\<close> of \<^verbatim>\<open>eventclf.v2.models.event_llm\<close> is
  imported by the notebook and its code is not in the repository. Of the object the
  notebook shows the constructor argument \<^verbatim>\<open>batch_size\<close> and the attribute \<^verbatim>\<open>_out\<close>, which
  it reads after a prediction as one raw output per post.
\<close>

record event_llm =
  batch_size :: nat
  llm_out :: "string list"

text \<open>
  Modelled from the spec: the parsing step of \<^verbatim>\<open>EventLLM.predict\<close>, which is not in the
  repository. The spec: it ``parses "Yes"/"No" into a binary label (with NaN fallback)''.
\<close>

definition parse_output :: "string \<Rightarrow> pred" where
  "parse_output output =
     (if output = ''Yes'' then Num 1 else if output = ''No'' then Num 0 else NaN)"

text \<open>
  Modelled from the spec: the grouping of \<^verbatim>\<open>EventLLM.predict\<close>, which is not in the
  repository. The spec: ``simple fixed-size batching''. The spec does not say what a batch
  size of 0 does; no batch is made here, and nothing is claimed for that size.
\<close>

function batches :: "nat \<Rightarrow> 'a list \<Rightarrow> 'a list list" where
  "batches n xs = (if n = 0 \<or> xs = [] then [] else take n xs # batches n (drop n xs))"
  by pat_completeness auto
termination
  by (relation "measure (\<lambda>(n, xs). length xs)") auto

text \<open>
  Modelled from the spec: the method \<^verbatim>\<open>EventLLM.predict\<close>, which is not in the repository.
  The spec: it ``formats a prompt template with event metadata and a post, issues batched
  calls to a pretrained model, and parses "Yes"/"No" into a binary label (with NaN
  fallback)''. Filling the template and the pretrained model, called on one batch of
  prompts, are parameters.
\<close>

definition EventLLM_predict ::
  "(string \<Rightarrow> prompt_dict \<Rightarrow> string \<Rightarrow> string) \<Rightarrow> (string list \<Rightarrow> string list) \<Rightarrow>
   event_llm predict" where
  "EventLLM_predict format generate llm prompt_template prompt_inputs posts =
     (let outputs =
            concat (map generate
                      (batches (batch_size llm) (map (format prompt_template prompt_inputs) posts)))
      in (map parse_output outputs, llm\<lparr>llm_out := outputs\<rparr>))"

section \<open>Cleaning the ALVA data\<close>

text \<open>
  Modelled from the spec: the rows that \<^verbatim>\<open>clean_alva_data\<close> of
  \<^verbatim>\<open>location_data.data_processing.alva\<close> works on; the function and its data are not in the
  repository. The package's README names the columns \<^verbatim>\<open>site_name\<close> and \<^verbatim>\<open>gt_total_visits\<close>
  first; the further columns are the extension of the record.
\<close>

record alva_row =
  site_name :: string
  gt_total_visits :: int

text \<open>
  Modelled from the spec: the step of \<^verbatim>\<open>clean_alva_data\<close> (not in the repository) that the
  spec words as ``drops duplicate site names''. Of the rows with one site name the first
  stays.
\<close>

fun drop_duplicates :: "string list \<Rightarrow> 'a alva_row_scheme list \<Rightarrow> 'a alva_row_scheme list" where
  "drop_duplicates seen [] = []"
| "drop_duplicates seen (row # rows) =
     (if site_name row \<in> set seen then drop_duplicates seen rows
      else row # drop_duplicates (site_name row # seen) rows)"

text \<open>
  Modelled from the spec: the function \<^verbatim>\<open>clean_alva_data(alva_data_path)\<close>, which is not in
  the repository. The README: ``column and site names are standardised and data is
  cleaned''; the spec: it ``drops duplicate site names''. Reading the CSV file and the
  standard form of a site name are parameters; the names are standardised before the
  duplicates are dropped.
\<close>

definition clean_alva_data ::
  "(string \<Rightarrow> 'a alva_row_scheme list) \<Rightarrow> (string \<Rightarrow> string) \<Rightarrow> string \<Rightarrow>
   'a alva_row_scheme list" where
  "clean_alva_data read_csv standardise alva_data_path =
     drop_duplicates []
       (map (\<lambda>row. row\<lparr>site_name := standardise (site_name row)\<rparr>) (read_csv alva_data_path))"

section \<open>Notions used in the statements\<close>

text \<open>What one cleaned entry is, when the index is in range.\<close>

definition flip_or_keep :: "int list \<Rightarrow> nat \<times> pred \<Rightarrow> pred" where
  "flip_or_keep y p = (if snd p = NaN then Num (abs (1 - y ! fst p)) else snd p)"

text \<open>The positions where a prediction equals the label.\<close>

definition agreeing :: "int list \<Rightarrow> pred list \<Rightarrow> nat set" where
  "agreeing y p = {i. i < length y \<and> p ! i = Num (y ! i)}"

text \<open>
  The iterations of the three nested loops in the order they run: event, then the examples
  string put into the prompt, then the run.
\<close>

type_synonym job = "string \<times> event_dict \<times> string \<times> string"

definition run_jobs :: "string \<Rightarrow> event_dict \<Rightarrow> string \<Rightarrow> job list" where
  "run_jobs event ed exs = map (\<lambda>run. (event, ed, exs, run)) [''train'', ''test'']"

definition event_jobs :: "string \<Rightarrow> event_dict \<Rightarrow> job list" where
  "event_jobs event ed = concat (map (run_jobs event ed) [ed_examples ed, ''''])"

definition jobs :: "(string \<times> event_dict) list \<Rightarrow> job list" where
  "jobs items = concat (map (\<lambda>item. event_jobs (fst item) (snd item)) items)"

text \<open>What the loop body stores for one iteration.\<close>

definition job_record :: "'s predict \<Rightarrow> job \<Rightarrow> res_dict \<Rightarrow> bool" where
  "job_record predict job r =
     (case job of (event, ed, exs, run) \<Rightarrow>
        \<exists>llm posts y rc.
          get_X ed run = Inr posts \<and> get_y ed run = Inr y \<and>
          rd_event r = event \<and> rd_stratagy r = stratagy_of exs \<and> rd_run r = run \<and>
          rd_res r = fst (predict llm EVENT_ATTENTENCE_TEMPLATE (make_prompt_dict ed exs) posts) \<and>
          res_clean (rd_res r) y = Inr rc \<and>
          f1_score y rc = Inr (rd_f1 r) \<and> precision_score y rc = Inr (rd_precision r) \<and>
          recall_score y rc = Inr (rd_recall r) \<and> accuracy_score y rc = Inr (rd_accuracy r))"

text \<open>
  A prediction method that returns one value per post, each 0, 1 or NaN; and an event whose
  posts and labels have the same number of entries, with labels 0 or 1.
\<close>

definition binary_predict :: "'s predict \<Rightarrow> bool" where
  "binary_predict predict =
     (\<forall>llm template inputs posts.
        length (fst (predict llm template inputs posts)) = length posts \<and>
        set (fst (predict llm template inputs posts)) \<subseteq> {Num 0, Num 1, NaN})"

definition binary_labels :: "event_dict \<Rightarrow> bool" where
  "binary_labels ed =
     (length (X_train ed) = length (y_train ed) \<and> length (X_test ed) = length (y_test ed) \<and>
      set (y_train ed) \<subseteq> {0, 1} \<and> set (y_test ed) \<subseteq> {0, 1})"

section \<open>A small input\<close>

text \<open>
  One event with a single post per run, a prediction method that answers 1 when the prompt
  carries examples and NaN when it carries none, and a two-row CSV file: the inputs at
  which the theorems below are evaluated.
\<close>

definition demo_event :: event_dict where
  "demo_event =
     \<lparr>train_data = [(''a'', 1)], test_data = [(''b'', 0)], ed_event = ''E'',
      ed_event_description = ''D'', ed_examples = ''x'',
      X_train = [''a''], X_test = [''b''], y_train = [1], y_test = [0]\<rparr>"

definition demo_predict :: "unit predict" where
  "demo_predict llm template inputs posts =
     (map (\<lambda>post. if pd_examples inputs = '''' then NaN else Num 1) posts, llm)"

definition demo_state :: "unit notebook" where
  "demo_state =
     \<lparr>data_dict = [(''e'', demo_event)], res_list = [], event_llm = (), files = Map.empty\<rparr>"

definition demo_csv :: "string \<Rightarrow> dataframe" where
  "demo_csv path = [(''a post'', 1), (''another'', 0)]"

text \<open>A model that answers two known prompts and gives another text for any other.\<close>

definition demo_generate :: "string list \<Rightarrow> string list" where
  "demo_generate batch =
     map (\<lambda>prompt. if prompt = ''p1'' then ''Yes'' else if prompt = ''p2'' then ''No''
                    else ''Maybe'') batch"

section \<open>Facts about the post-processing\<close>

lemma comprehension_total:
  "(\<forall>x \<in> set xs. f x = Inr (g x)) \<Longrightarrow> comprehension f xs = Inr (map g xs)"
  by (induction xs) simp_all

lemma comprehension_Inr_length:
  "comprehension f xs = Inr vs \<Longrightarrow> length vs = length xs"
  by (induction xs arbitrary: vs) (auto split: sum.splits)

lemma comprehension_Inr_nth:
  "comprehension f xs = Inr vs \<Longrightarrow> k < length xs \<Longrightarrow> f (xs ! k) = Inr (vs ! k)"
proof (induction xs arbitrary: vs k)
  case Nil
  then show ?case by simp
next
  case (Cons x xs)
  then show ?case by (cases k) (auto split: sum.splits)
qed

lemma clean_entry_in_range:
  "idx < length y \<Longrightarrow> clean_entry y (idx, i) = Inr (flip_or_keep y (idx, i))"
  by (cases i) (simp_all add: isnan_def flip_or_keep_def)

lemma res_clean_in_range:
  assumes "length res \<le> length y"
  shows "res_clean res y = Inr (map (flip_or_keep y) (enumerate 0 res))"
proof -
  have "\<forall>p \<in> set (enumerate 0 res). clean_entry y p = Inr (flip_or_keep y p)"
  proof
    fix p assume "p \<in> set (enumerate 0 res)"
    then have "fst p < length res" by (auto simp: in_set_enumerate_eq)
    with assms have "fst p < length y" by simp
    then show "clean_entry y p = Inr (flip_or_keep y p)"
      using clean_entry_in_range [of "fst p" y "snd p"] by simp
  qed
  then show ?thesis unfolding res_clean_def by (rule comprehension_total)
qed

lemma res_clean_nth:
  assumes "length res \<le> length y" and "res_clean res y = Inr rc" and "k < length res"
  shows "rc ! k = (if res ! k = NaN then Num (abs (1 - y ! k)) else res ! k)"
proof -
  from assms(1) have "res_clean res y = Inr (map (flip_or_keep y) (enumerate 0 res))"
    by (rule res_clean_in_range)
  with assms(2) have "rc = map (flip_or_keep y) (enumerate 0 res)" by simp
  with assms(3) show ?thesis by (simp add: nth_enumerate_eq flip_or_keep_def)
qed

lemma res_clean_length: "res_clean res y = Inr rc \<Longrightarrow> length rc = length res"
  unfolding res_clean_def by (drule comprehension_Inr_length) simp

text \<open>
  C1. For a prediction list and a label array of the same length, with every label 0 or
  1, the post-processing returns a cleaned array of that length; an entry is the flipped
  label \<open>|1 - y[i]|\<close> where the prediction is NaN, and the prediction itself elsewhere.
\<close>

theorem res_clean_flips_nan:
  assumes "length res = length y" and "set y \<subseteq> {0, 1}"
  shows "\<exists>rc. res_clean res y = Inr rc \<and> length rc = length res \<and>
           (\<forall>i<length res.
              (res ! i = NaN \<longrightarrow> rc ! i = Num (abs (1 - y ! i)) \<and> rc ! i = Num (1 - y ! i)) \<and>
              (res ! i \<noteq> NaN \<longrightarrow> rc ! i = res ! i))"
proof -
  from assms(1) have le: "length res \<le> length y" by simp
  define rc where "rc = map (flip_or_keep y) (enumerate 0 res)"
  from le have eq: "res_clean res y = Inr rc"
    unfolding rc_def by (rule res_clean_in_range)
  have len: "length rc = length res" by (simp add: rc_def)
  have "(res ! i = NaN \<longrightarrow> rc ! i = Num (abs (1 - y ! i)) \<and> rc ! i = Num (1 - y ! i)) \<and>
        (res ! i \<noteq> NaN \<longrightarrow> rc ! i = res ! i)" if i: "i < length res" for i
  proof -
    from i assms(1) have "y ! i \<in> set y" by simp
    with assms(2) have "y ! i = 0 \<or> y ! i = 1" by auto
    then have "abs (1 - y ! i) = 1 - y ! i" by auto
    moreover from le eq i
    have "rc ! i = (if res ! i = NaN then Num (abs (1 - y ! i)) else res ! i)"
      by (rule res_clean_nth)
    ultimately show ?thesis by simp
  qed
  with eq len show ?thesis by blast
qed

theorem res_clean_flips_nan_witness:
  "\<exists>rc. res_clean [Num 1, NaN, NaN] [0, 1, 0] = Inr rc \<and> length rc = 3 \<and>
      rc ! 0 = Num 1 \<and> rc ! 1 = Num 0 \<and> rc ! 2 = Num 1"
proof -
  have h1: "length [Num 1, NaN, NaN] = length [0, 1, 0 :: int]" by simp
  have h2: "set [0, 1, 0 :: int] \<subseteq> {0, 1}" by simp
  from res_clean_flips_nan [OF h1 h2]
  obtain rc where rc: "res_clean [Num 1, NaN, NaN] [0, 1, 0] = Inr rc"
    and len: "length rc = length [Num 1, NaN, NaN]"
    and nth: "\<forall>i<length [Num 1, NaN, NaN].
        ([Num 1, NaN, NaN] ! i = NaN \<longrightarrow>
           rc ! i = Num (abs (1 - [0, 1, 0] ! i)) \<and> rc ! i = Num (1 - [0, 1, 0] ! i)) \<and>
        ([Num 1, NaN, NaN] ! i \<noteq> NaN \<longrightarrow> rc ! i = [Num 1, NaN, NaN] ! i)"
    by blast
  from nth [rule_format, of 0] have "rc ! 0 = Num 1" by simp
  moreover from nth [rule_format, of 1] have "rc ! 1 = Num 0" by simp
  moreover from nth [rule_format, of 2] have "rc ! 2 = Num 1" by simp
  ultimately show ?thesis using rc len by simp
qed

section \<open>Facts about the accuracy score\<close>

lemma flip_or_keep_not_nan: "flip_or_keep y p \<noteq> NaN"
  by (simp add: flip_or_keep_def)

lemma res_clean_no_nan:
  assumes "length res \<le> length y" and "res_clean res y = Inr rc"
  shows "NaN \<notin> set rc"
proof -
  from assms(1) have "res_clean res y = Inr (map (flip_or_keep y) (enumerate 0 res))"
    by (rule res_clean_in_range)
  with assms(2) have "rc = map (flip_or_keep y) (enumerate 0 res)" by simp
  then show ?thesis using flip_or_keep_not_nan [of y] by (auto simp: image_iff) metis
qed

lemma res_clean_consistent:
  assumes "length res = length y" and "res_clean res y = Inr rc"
  shows "consistent y rc"
proof -
  from assms(2) have "length rc = length res" by (rule res_clean_length)
  moreover from assms have "NaN \<notin> set rc" by (intro res_clean_no_nan [of res y]) simp_all
  ultimately show ?thesis using assms(1) by (simp add: consistent_def)
qed

lemma count_agree:
  assumes "length y = length p"
  shows "length (filter agree (zip y p)) = card (agreeing y p)"
proof -
  have "length (filter agree (zip y p)) = card {i. i < length (zip y p) \<and> agree (zip y p ! i)}"
    by (rule length_filter_conv_card)
  also have "{i. i < length (zip y p) \<and> agree (zip y p ! i)} = agreeing y p"
    using assms by (auto simp: agree_def agreeing_def)
  finally show ?thesis .
qed

lemma accuracy_score_fraction:
  assumes "consistent y p" and "y \<noteq> []"
  shows "accuracy_score y p = Inr (Score (of_nat (card (agreeing y p)) / of_nat (length y)))"
proof -
  from assms(1) have "length y = length p" by (simp add: consistent_def)
  then have "length (filter agree (zip y p)) = card (agreeing y p)" by (rule count_agree)
  with assms show ?thesis by (simp add: accuracy_score_def)
qed

lemma finite_agreeing: "finite (agreeing y p)"
  by (simp add: agreeing_def)

lemma flip_differs: "abs (1 - v) \<noteq> (v::int)"
  by arith

lemma count_nan: "length (filter isnan res) = card {i. i < length res \<and> res ! i = NaN}"
proof -
  have "isnan v = (v = NaN)" for v by (cases v) (simp_all add: isnan_def)
  then show ?thesis by (simp add: length_filter_conv_card)
qed

lemma nan_not_agreeing:
  assumes "length res = length y" and "res_clean res y = Inr rc"
    and "i < length res" and "res ! i = NaN"
  shows "i \<notin> agreeing y rc"
proof -
  from assms have "rc ! i = Num (abs (1 - y ! i))"
    using res_clean_nth [of res y rc i] by simp
  then show ?thesis using flip_differs [of "y ! i"] by (simp add: agreeing_def)
qed

lemma agreeing_plus_nan:
  assumes "length res = length y" and "res_clean res y = Inr rc"
  shows "card (agreeing y rc) + length (filter isnan res) \<le> length y"
proof -
  let ?N = "{i. i < length res \<and> res ! i = NaN}"
  have disj: "agreeing y rc \<inter> ?N = {}"
    using nan_not_agreeing [OF assms] by auto
  have sub: "agreeing y rc \<union> ?N \<subseteq> {..<length y}"
    using assms(1) by (auto simp: agreeing_def)
  have "card (agreeing y rc) + card ?N = card (agreeing y rc \<union> ?N)"
    using disj by (simp add: card_Un_disjoint finite_agreeing)
  also have "\<dots> \<le> card {..<length y}"
    using sub by (intro card_mono) simp_all
  finally show ?thesis by (simp add: count_nan)
qed

lemma res_clean_update:
  assumes "length res = length y" and "res_clean res y = Inr rc" and "i < length res"
  shows "res_clean (res[i := Num v]) y = Inr (rc[i := Num v])"
proof -
  from assms(1) have "length (res[i := Num v]) \<le> length y" by simp
  then have eq: "res_clean (res[i := Num v]) y =
      Inr (map (flip_or_keep y) (enumerate 0 (res[i := Num v])))"
    by (rule res_clean_in_range)
  have "map (flip_or_keep y) (enumerate 0 (res[i := Num v])) = rc[i := Num v]"
  proof (rule nth_equalityI)
    show "length (map (flip_or_keep y) (enumerate 0 (res[i := Num v]))) = length (rc[i := Num v])"
      using res_clean_length [OF assms(2)] by simp
  next
    fix j assume "j < length (map (flip_or_keep y) (enumerate 0 (res[i := Num v])))"
    then have j: "j < length res" by simp
    from assms(1) have "length res \<le> length y" by simp
    from res_clean_nth [OF this assms(2) j]
    have rcj: "rc ! j = (if res ! j = NaN then Num (abs (1 - y ! j)) else res ! j)" .
    from j res_clean_length [OF assms(2)] have jl: "j < length rc" by simp
    show "map (flip_or_keep y) (enumerate 0 (res[i := Num v])) ! j = rc[i := Num v] ! j"
      using j jl rcj assms(3)
      by (cases "j = i") (simp_all add: nth_enumerate_eq flip_or_keep_def)
  qed
  with eq show ?thesis by simp
qed

lemma agreeing_update:
  assumes "length rc = length y" and "i < length y"
  shows "agreeing y (rc[i := Num (y ! i)]) = insert i (agreeing y rc)"
  using assms by (auto simp: agreeing_def nth_list_update)

text \<open>
  C2. A prediction that is NaN is scored as an error: its cleaned entry differs from the
  label, the accuracy of the cleaned array is at most one minus the share of NaN entries
  (so below 1), and it is lower by exactly \<open>1 / n\<close> than the accuracy obtained had that
  entry been parsed to the right label.
\<close>

theorem nan_scored_as_error:
  assumes "length res = length y" and "set y \<subseteq> {0, 1}"
    and "i < length res" and "res ! i = NaN"
  shows "\<exists>rc a rc'.
           res_clean res y = Inr rc \<and> rc ! i \<noteq> Num (y ! i) \<and>
           accuracy_score y rc = Inr (Score a) \<and>
           a \<le> 1 - of_nat (length (filter isnan res)) / of_nat (length y) \<and> a < 1 \<and>
           res_clean (res[i := Num (y ! i)]) y = Inr rc' \<and>
           accuracy_score y rc' = Inr (Score (a + 1 / of_nat (length y)))"
proof -
  from assms(1) have le: "length res \<le> length y" by simp
  from assms(1,3) have ne: "y \<noteq> []" by auto
  then have n0: "(of_nat (length y) :: rat) > 0" by simp
  define rc where "rc = map (flip_or_keep y) (enumerate 0 res)"
  define a :: rat where "a = of_nat (card (agreeing y rc)) / of_nat (length y)"
  from le have eq: "res_clean res y = Inr rc"
    unfolding rc_def by (rule res_clean_in_range)
  have len: "length rc = length y" using assms(1) by (simp add: rc_def)
  have notin: "i \<notin> agreeing y rc"
    using assms(1) eq assms(3,4) by (rule nan_not_agreeing)
  then have wrong: "rc ! i \<noteq> Num (y ! i)"
    using assms(1,3) by (simp add: agreeing_def)
  have cons: "consistent y rc" using assms(1) eq by (rule res_clean_consistent)
  then have acc: "accuracy_score y rc = Inr (Score a)"
    unfolding a_def using ne by (rule accuracy_score_fraction)
  have "card (agreeing y rc) + length (filter isnan res) \<le> length y"
    using assms(1) eq by (rule agreeing_plus_nan)
  then have "(of_nat (card (agreeing y rc)) :: rat) + of_nat (length (filter isnan res))
      \<le> of_nat (length y)"
    by (metis of_nat_add of_nat_le_iff)
  then have bound: "a \<le> 1 - of_nat (length (filter isnan res)) / of_nat (length y)"
    unfolding a_def using n0 by (simp add: field_simps)
  have "isnan (res ! i)" using assms(4) by (simp add: isnan_def)
  with assms(3) have "res ! i \<in> set (filter isnan res)" by simp
  then have "length (filter isnan res) > 0" by (metis length_pos_if_in_set)
  then have "(of_nat (length (filter isnan res)) :: rat) / of_nat (length y) > 0"
    using n0 by simp
  with bound have lt: "a < 1" by simp
  have eq': "res_clean (res[i := Num (y ! i)]) y = Inr (rc[i := Num (y ! i)])"
    using assms(1) eq assms(3) by (rule res_clean_update)
  have cons': "consistent y (rc[i := Num (y ! i)])"
    using res_clean_consistent [OF _ eq'] assms(1) by simp
  have "agreeing y (rc[i := Num (y ! i)]) = insert i (agreeing y rc)"
    using len assms(1,3) by (intro agreeing_update) simp_all
  then have "card (agreeing y (rc[i := Num (y ! i)])) = Suc (card (agreeing y rc))"
    using notin by (simp add: finite_agreeing)
  moreover have "accuracy_score y (rc[i := Num (y ! i)]) =
      Inr (Score (of_nat (card (agreeing y (rc[i := Num (y ! i)]))) / of_nat (length y)))"
    using cons' ne by (rule accuracy_score_fraction)
  ultimately have acc': "accuracy_score y (rc[i := Num (y ! i)]) =
      Inr (Score (a + 1 / of_nat (length y)))"
    unfolding a_def by (simp add: add_divide_distrib)
  from eq wrong acc bound lt eq' acc' show ?thesis by blast
qed

theorem nan_scored_as_error_witness:
  "\<exists>rc a rc'.
     res_clean [Num 1, NaN] [1, 0] = Inr rc \<and> rc ! 1 \<noteq> Num 0 \<and>
     accuracy_score [1, 0] rc = Inr (Score a) \<and> a \<le> 1 / 2 \<and> a < 1 \<and>
     res_clean [Num 1, Num 0] [1, 0] = Inr rc' \<and>
     accuracy_score [1, 0] rc' = Inr (Score (a + 1 / 2))"
proof -
  have h1: "length [Num 1, NaN] = length [1, 0 :: int]" by simp
  have h2: "set [1, 0 :: int] \<subseteq> {0, 1}" by simp
  have h3: "1 < length [Num 1, NaN]" by simp
  have h4: "[Num 1, NaN] ! 1 = NaN" by simp
  have "length (filter isnan [Num 1, NaN]) = 1" by (simp add: isnan_def)
  with nan_scored_as_error [OF h1 h2 h3 h4] show ?thesis by simp
qed

section \<open>Facts about the experiment loop\<close>

lemma run_once_exact:
  assumes "run_once predict event ed exs run s = Inr s'"
  shows "\<exists>r posts. get_X ed run = Inr posts \<and>
           rd_res r = fst (predict (event_llm s) EVENT_ATTENTENCE_TEMPLATE
                             (make_prompt_dict ed exs) posts) \<and>
           job_record predict (event, ed, exs, run) r \<and>
           s' = s\<lparr>res_list := res_list s @ [r],
                  event_llm := snd (predict (event_llm s) EVENT_ATTENTENCE_TEMPLATE
                                      (make_prompt_dict ed exs) posts)\<rparr>"
proof -
  from assms obtain posts where X: "get_X ed run = Inr posts"
    by (cases "get_X ed run") (simp_all add: run_once_def)
  obtain res llm where p:
    "predict (event_llm s) EVENT_ATTENTENCE_TEMPLATE (make_prompt_dict ed exs) posts = (res, llm)"
    by (cases "predict (event_llm s) EVENT_ATTENTENCE_TEMPLATE (make_prompt_dict ed exs) posts")
  from assms X p obtain y where y: "get_y ed run = Inr y"
    by (cases "get_y ed run") (simp_all add: run_once_def)
  from assms X p y obtain rc where rc: "res_clean res y = Inr rc"
    by (cases "res_clean res y") (simp_all add: run_once_def)
  from assms X p y rc obtain f1 where f1: "f1_score y rc = Inr f1"
    by (cases "f1_score y rc") (simp_all add: run_once_def)
  from assms X p y rc f1 obtain precision where pr: "precision_score y rc = Inr precision"
    by (cases "precision_score y rc") (simp_all add: run_once_def)
  from assms X p y rc f1 pr obtain recall where re: "recall_score y rc = Inr recall"
    by (cases "recall_score y rc") (simp_all add: run_once_def)
  from assms X p y rc f1 pr re obtain accuracy where ac: "accuracy_score y rc = Inr accuracy"
    by (cases "accuracy_score y rc") (simp_all add: run_once_def)
  let ?r = "\<lparr>rd_event = event, rd_stratagy = stratagy_of exs, rd_run = run,
             rd_res = res, rd_f1 = f1, rd_precision = precision,
             rd_recall = recall, rd_accuracy = accuracy\<rparr>"
  from assms X p y rc f1 pr re ac
  have s': "s' = s\<lparr>res_list := res_list s @ [?r],
                  event_llm := snd (predict (event_llm s) EVENT_ATTENTENCE_TEMPLATE
                                      (make_prompt_dict ed exs) posts)\<rparr>"
    by (simp add: run_once_def)
  from p have raw: "rd_res ?r =
      fst (predict (event_llm s) EVENT_ATTENTENCE_TEMPLATE (make_prompt_dict ed exs) posts)"
    by simp
  with X y rc f1 pr re ac have "job_record predict (event, ed, exs, run) ?r"
    unfolding job_record_def by (simp del: fst_conv) blast
  with X raw s' show ?thesis by blast
qed

lemma run_once_Inr:
  assumes "run_once predict event ed exs run s = Inr s'"
  shows "\<exists>r llm. job_record predict (event, ed, exs, run) r \<and>
           s' = s\<lparr>res_list := res_list s @ [r], event_llm := llm\<rparr>"
  using run_once_exact [OF assms] by blast

lemma run_loop_Inr:
  "run_loop predict event ed exs runs s = Inr s' \<Longrightarrow>
   \<exists>rs llm. list_all2 (job_record predict) (map (\<lambda>run. (event, ed, exs, run)) runs) rs \<and>
      s' = s\<lparr>res_list := res_list s @ rs, event_llm := llm\<rparr>"
proof (induction runs arbitrary: s)
  case Nil
  then have "s' = s\<lparr>res_list := res_list s @ [], event_llm := event_llm s\<rparr>" by simp
  then show ?case by (metis list.simps(8) list_all2_Nil)
next
  case (Cons run runs)
  from Cons.prems obtain s1 where s1: "run_once predict event ed exs run s = Inr s1"
    and rest: "run_loop predict event ed exs runs s1 = Inr s'"
    by (auto split: sum.splits)
  from run_once_Inr [OF s1] obtain r llm1 where r: "job_record predict (event, ed, exs, run) r"
    and e1: "s1 = s\<lparr>res_list := res_list s @ [r], event_llm := llm1\<rparr>" by blast
  from Cons.IH [OF rest] obtain rs llm where
    rs: "list_all2 (job_record predict) (map (\<lambda>run. (event, ed, exs, run)) runs) rs"
    and e2: "s' = s1\<lparr>res_list := res_list s1 @ rs, event_llm := llm\<rparr>" by blast
  from r rs have "list_all2 (job_record predict)
      (map (\<lambda>run. (event, ed, exs, run)) (run # runs)) (r # rs)" by simp
  moreover from e1 e2 have "s' = s\<lparr>res_list := res_list s @ (r # rs), event_llm := llm\<rparr>"
    by simp
  ultimately show ?case by blast
qed

lemma examples_loop_Inr:
  "examples_loop predict event ed exss s = Inr s' \<Longrightarrow>
   \<exists>rs llm. list_all2 (job_record predict) (concat (map (run_jobs event ed) exss)) rs \<and>
      s' = s\<lparr>res_list := res_list s @ rs, event_llm := llm\<rparr>"
proof (induction exss arbitrary: s)
  case Nil
  then have "s' = s\<lparr>res_list := res_list s @ [], event_llm := event_llm s\<rparr>" by simp
  then show ?case by (metis concat.simps(1) list.simps(8) list_all2_Nil)
next
  case (Cons exs exss)
  from Cons.prems obtain s1 where
    s1: "run_loop predict event ed exs [''train'', ''test''] s = Inr s1"
    and rest: "examples_loop predict event ed exss s1 = Inr s'"
    by (auto split: sum.splits)
  from run_loop_Inr [OF s1] obtain rs1 llm1 where
    r: "list_all2 (job_record predict) (run_jobs event ed exs) rs1"
    and e1: "s1 = s\<lparr>res_list := res_list s @ rs1, event_llm := llm1\<rparr>"
    unfolding run_jobs_def by blast
  from Cons.IH [OF rest] obtain rs llm where
    rs: "list_all2 (job_record predict) (concat (map (run_jobs event ed) exss)) rs"
    and e2: "s' = s1\<lparr>res_list := res_list s1 @ rs, event_llm := llm\<rparr>" by blast
  from r rs have "list_all2 (job_record predict)
      (concat (map (run_jobs event ed) (exs # exss))) (rs1 @ rs)"
    by (simp add: list_all2_appendI)
  moreover from e1 e2 have "s' = s\<lparr>res_list := res_list s @ (rs1 @ rs), event_llm := llm\<rparr>"
    by simp
  ultimately show ?case by blast
qed

lemma event_loop_Inr:
  "event_loop predict items s = Inr s' \<Longrightarrow>
   \<exists>rs llm. list_all2 (job_record predict) (jobs items) rs \<and>
      s' = s\<lparr>res_list := res_list s @ rs, event_llm := llm\<rparr>"
proof (induction items arbitrary: s)
  case Nil
  then have "s' = s\<lparr>res_list := res_list s @ [], event_llm := event_llm s\<rparr>" by simp
  then show ?case unfolding jobs_def by (metis concat.simps(1) list.simps(8) list_all2_Nil)
next
  case (Cons item items)
  obtain event ed where item: "item = (event, ed)" by (cases item)
  from Cons.prems item obtain s1 where
    s1: "examples_loop predict event ed [ed_examples ed, ''''] s = Inr s1"
    and rest: "event_loop predict items s1 = Inr s'"
    by (auto split: sum.splits)
  from examples_loop_Inr [OF s1] obtain rs1 llm1 where
    r: "list_all2 (job_record predict) (event_jobs event ed) rs1"
    and e1: "s1 = s\<lparr>res_list := res_list s @ rs1, event_llm := llm1\<rparr>"
    unfolding event_jobs_def by blast
  from Cons.IH [OF rest] obtain rs llm where
    rs: "list_all2 (job_record predict) (jobs items) rs"
    and e2: "s' = s1\<lparr>res_list := res_list s1 @ rs, event_llm := llm\<rparr>" by blast
  from r rs item have "list_all2 (job_record predict) (jobs (item # items)) (rs1 @ rs)"
    by (simp add: jobs_def list_all2_appendI)
  moreover from e1 e2 have "s' = s\<lparr>res_list := res_list s @ (rs1 @ rs), event_llm := llm\<rparr>"
    by simp
  ultimately show ?case by blast
qed

lemma run_experiment_Inr:
  assumes "run_experiment predict s = Inr s'"
  shows "list_all2 (job_record predict) (jobs (data_dict s)) (res_list s') \<and>
         data_dict s' = data_dict s \<and> files s' = files s"
proof -
  from assms have "event_loop predict (data_dict s) (s\<lparr>res_list := []\<rparr>) = Inr s'"
    by (simp add: run_experiment_def)
  from event_loop_Inr [OF this] obtain rs llm where
    "list_all2 (job_record predict) (jobs (data_dict s)) rs"
    "s' = s\<lparr>res_list := rs, event_llm := llm\<rparr>" by auto
  then show ?thesis by simp
qed

lemma set_num_values: "set (num_values p) = {v. Num v \<in> set p}"
  by (induction p rule: num_values.induct) auto

lemma length_le_card: 
  assumes "distinct xs" and "set xs \<subseteq> A" and "finite A"
  shows "length xs \<le> card A"
proof -
  from assms(1) have "length xs = card (set xs)" by (simp add: distinct_card)
  also from assms(2,3) have "\<dots> \<le> card A" by (rule card_mono [rotated])
  finally show ?thesis .
qed

lemma binary_targets_01:
  assumes "length y = length p" and "set y \<subseteq> {0, 1}" and "set p \<subseteq> {Num 0, Num 1}"
  shows "binary_targets y p"
proof -
  let ?labs = "present_labels y p"
  from assms(3) have nan: "NaN \<notin> set p" by auto
  from assms(3) have "set (num_values p) \<subseteq> {0, 1}" by (auto simp: set_num_values)
  with assms(2) have sub: "set ?labs \<subseteq> {0, 1}" by (simp add: present_labels_def)
  have dist: "distinct ?labs" by (simp add: present_labels_def)
  from dist sub have le2: "length ?labs \<le> card {0, 1 :: int}" by (rule length_le_card) simp
  have "length ?labs < 2" if "1 \<notin> set ?labs"
  proof -
    from sub that have "set ?labs \<subseteq> {0}" by auto
    with dist have "length ?labs \<le> card {0 :: int}" by (rule length_le_card) simp
    then show ?thesis by simp
  qed
  with le2 nan assms(1) show ?thesis
    unfolding binary_targets_def consistent_def by auto
qed

lemma res_clean_01:
  assumes "length res = length y" and "set y \<subseteq> {0, 1}"
    and "set res \<subseteq> {Num 0, Num 1, NaN}" and "res_clean res y = Inr rc"
  shows "set rc \<subseteq> {Num 0, Num 1}"
proof
  fix v assume "v \<in> set rc"
  then obtain k where k: "k < length rc" and v: "v = rc ! k" by (auto simp: in_set_conv_nth)
  from k res_clean_length [OF assms(4)] have kr: "k < length res" by simp
  from assms(1) have "length res \<le> length y" by simp
  from res_clean_nth [OF this assms(4) kr]
  have eq: "rc ! k = (if res ! k = NaN then Num (abs (1 - y ! k)) else res ! k)" .
  from kr assms(1,2) have "y ! k = 0 \<or> y ! k = 1" by (metis insertE nth_mem singletonD subsetD)
  moreover from kr assms(3) have "res ! k \<in> {Num 0, Num 1, NaN}" by (metis nth_mem subsetD)
  ultimately show "v \<in> {Num 0, Num 1}" using eq v by auto
qed

lemma run_once_total:
  assumes "binary_predict predict" and "binary_labels ed" and "run \<in> {''train'', ''test''}"
  shows "\<exists>s'. run_once predict event ed exs run s = Inr s'"
proof -
  from assms(2,3) obtain posts y where X: "get_X ed run = Inr posts" and y: "get_y ed run = Inr y"
    and len: "length posts = length y" and y01: "set y \<subseteq> {0, 1}"
    by (auto simp: get_X_def get_y_def binary_labels_def)
  obtain res llm where p:
    "predict (event_llm s) EVENT_ATTENTENCE_TEMPLATE (make_prompt_dict ed exs) posts = (res, llm)"
    by (cases "predict (event_llm s) EVENT_ATTENTENCE_TEMPLATE (make_prompt_dict ed exs) posts")
  from assms(1) have "length (fst (predict (event_llm s) EVENT_ATTENTENCE_TEMPLATE
        (make_prompt_dict ed exs) posts)) = length posts"
    and "set (fst (predict (event_llm s) EVENT_ATTENTENCE_TEMPLATE
        (make_prompt_dict ed exs) posts)) \<subseteq> {Num 0, Num 1, NaN}"
    unfolding binary_predict_def by blast+
  with p len have lr: "length res = length y" and r01: "set res \<subseteq> {Num 0, Num 1, NaN}"
    by simp_all
  define rc where "rc = map (flip_or_keep y) (enumerate 0 res)"
  from lr have "length res \<le> length y" by simp
  then have rc: "res_clean res y = Inr rc"
    unfolding rc_def by (rule res_clean_in_range)
  from lr y01 r01 rc have "set rc \<subseteq> {Num 0, Num 1}" by (rule res_clean_01)
  moreover have "length y = length rc" using lr by (simp add: rc_def)
  ultimately have bt: "binary_targets y rc" using y01 by (intro binary_targets_01)
  then have "consistent y rc" by (simp add: binary_targets_def)
  then have "\<exists>a. accuracy_score y rc = Inr a" by (simp add: accuracy_score_def)
  then obtain a where ac: "accuracy_score y rc = Inr a" ..
  from bt obtain f1 where f1: "f1_score y rc = Inr f1" by (simp add: f1_score_def)
  from bt obtain pr where pr: "precision_score y rc = Inr pr" by (simp add: precision_score_def)
  from bt obtain re where re: "recall_score y rc = Inr re" by (simp add: recall_score_def)
  from X y p rc f1 pr re ac show ?thesis by (simp add: run_once_def)
qed

lemma run_loop_total:
  assumes "binary_predict predict" and "binary_labels ed"
  shows "set runs \<subseteq> {''train'', ''test''} \<Longrightarrow>
         \<exists>s'. run_loop predict event ed exs runs s = Inr s'"
proof (induction runs arbitrary: s)
  case Nil
  then show ?case by simp
next
  case (Cons run runs)
  from Cons.prems have run: "run \<in> {''train'', ''test''}"
    and runs: "set runs \<subseteq> {''train'', ''test''}" by simp_all
  from run_once_total [OF assms run, of event exs s]
  obtain s1 where s1: "run_once predict event ed exs run s = Inr s1" ..
  from Cons.IH [OF runs, of s1]
  obtain s' where "run_loop predict event ed exs runs s1 = Inr s'" ..
  with s1 show ?case by simp
qed

lemma examples_loop_total:
  assumes "binary_predict predict" and "binary_labels ed"
  shows "\<exists>s'. examples_loop predict event ed exss s = Inr s'"
proof (induction exss arbitrary: s)
  case Nil
  then show ?case by simp
next
  case (Cons exs exss)
  have "set [''train'', ''test''] \<subseteq> {''train'', ''test''}" by simp
  from run_loop_total [OF assms this, of event exs s]
  obtain s1 where s1: "run_loop predict event ed exs [''train'', ''test''] s = Inr s1" ..
  from Cons.IH [of s1]
  obtain s' where "examples_loop predict event ed exss s1 = Inr s'" ..
  with s1 show ?case by simp
qed

lemma event_loop_total:
  assumes "binary_predict predict"
  shows "list_all (\<lambda>item. binary_labels (snd item)) items \<Longrightarrow>
         \<exists>s'. event_loop predict items s = Inr s'"
proof (induction items arbitrary: s)
  case Nil
  then show ?case by simp
next
  case (Cons item items)
  obtain event ed where item: "item = (event, ed)" by (cases item)
  with Cons.prems have ed: "binary_labels ed"
    and rest: "list_all (\<lambda>item. binary_labels (snd item)) items" by simp_all
  from examples_loop_total [OF assms ed, of event "[ed_examples ed, '''']" s]
  obtain s1 where s1: "examples_loop predict event ed [ed_examples ed, ''''] s = Inr s1" ..
  from Cons.IH [OF rest, of s1]
  obtain s' where "event_loop predict items s1 = Inr s'" ..
  with s1 item show ?case by simp
qed

lemma job_record_triples:
  "list_all2 (job_record predict) js rs \<Longrightarrow>
   map (\<lambda>r. (rd_event r, rd_stratagy r, rd_run r)) rs =
   map (\<lambda>job. (fst job, stratagy_of (fst (snd (snd job))), snd (snd (snd job)))) js"
  by (induction rule: list_all2_induct) (auto simp: job_record_def)

lemma stratagy_of_farnborough: "stratagy_of farnborough_examples = ''few shot''"
  by (simp add: stratagy_of_def farnborough_examples_def nl_def)

lemma stratagy_of_rugby: "stratagy_of rugby_examples = ''few shot''"
  by (simp add: stratagy_of_def rugby_examples_def nl_def)

lemma stratagy_of_empty: "stratagy_of '''' = ''zero shot''"
  by (simp add: stratagy_of_def)

lemma notebook_triples:
  "map (\<lambda>job. (fst job, stratagy_of (fst (snd (snd job))), snd (snd (snd job))))
     (jobs (load_data_dict read_csv clean_text)) =
   [(''farnborough'', ''few shot'', ''train''), (''farnborough'', ''few shot'', ''test''),
    (''farnborough'', ''zero shot'', ''train''), (''farnborough'', ''zero shot'', ''test''),
    (''rugby'', ''few shot'', ''train''), (''rugby'', ''few shot'', ''test''),
    (''rugby'', ''zero shot'', ''train''), (''rugby'', ''zero shot'', ''test'')]"
  by (simp add: jobs_def event_jobs_def run_jobs_def load_data_dict_def data_lists_def
      load_event_def prompts_def stratagy_of_farnborough stratagy_of_rugby stratagy_of_empty)

lemma load_data_dict_binary:
  assumes "\<forall>path. snd ` set (read_csv path) \<subseteq> {0, 1}"
  shows "list_all (\<lambda>item. binary_labels (snd item)) (load_data_dict read_csv clean_text)"
  using assms by (simp add: load_data_dict_def data_lists_def load_event_def binary_labels_def)

lemma run_experiment_nth:
  assumes "run_experiment predict s = Inr s'"
  shows "length (res_list s') = length (jobs (data_dict s))"
    and "k < length (res_list s') \<Longrightarrow> job_record predict (jobs (data_dict s) ! k) (res_list s' ! k)"
proof -
  from run_experiment_Inr [OF assms]
  have all: "list_all2 (job_record predict) (jobs (data_dict s)) (res_list s')" by simp
  then show len: "length (res_list s') = length (jobs (data_dict s))"
    by (simp add: list_all2_lengthD)
  assume "k < length (res_list s')"
  with len have "k < length (jobs (data_dict s))" by simp
  with all show "job_record predict (jobs (data_dict s) ! k) (res_list s' ! k)"
    by (rule list_all2_nthD)
qed

lemma stratagy_of_iff:
  "(stratagy_of exs = ''few shot'' \<longleftrightarrow> exs \<noteq> '''') \<and> (stratagy_of exs = ''zero shot'' \<longleftrightarrow> exs = '''')"
  by (simp add: stratagy_of_def)

text \<open>
  C4. After the loop the list has one record per iteration, in order, and the record of an
  iteration holds the predictions made with the prompt inputs of that iteration; its
  \<^verbatim>\<open>stratagy\<close> is \<^verbatim>\<open>few shot\<close> exactly when the examples string of those inputs is not
  empty, and \<^verbatim>\<open>zero shot\<close> exactly when it is empty.
\<close>

theorem stratagy_follows_examples:
  assumes "run_experiment predict s = Inr s'"
  shows "length (res_list s') = length (jobs (data_dict s)) \<and>
         (\<forall>k<length (res_list s').
            \<exists>event ed exs run llm posts.
              jobs (data_dict s) ! k = (event, ed, exs, run) \<and>
              get_X ed run = Inr posts \<and>
              rd_res (res_list s' ! k) =
                fst (predict llm EVENT_ATTENTENCE_TEMPLATE (make_prompt_dict ed exs) posts) \<and>
              pd_examples (make_prompt_dict ed exs) = exs \<and>
              (rd_stratagy (res_list s' ! k) = ''few shot'' \<longleftrightarrow> exs \<noteq> '''') \<and>
              (rd_stratagy (res_list s' ! k) = ''zero shot'' \<longleftrightarrow> exs = ''''))"
proof (intro conjI allI impI)
  show "length (res_list s') = length (jobs (data_dict s))"
    using assms by (rule run_experiment_nth(1))
next
  fix k assume k: "k < length (res_list s')"
  obtain event ed exs run where job: "jobs (data_dict s) ! k = (event, ed, exs, run)"
    by (cases "jobs (data_dict s) ! k")
  from run_experiment_nth(2) [OF assms k] job
  obtain llm posts where "get_X ed run = Inr posts"
    and "rd_res (res_list s' ! k) =
           fst (predict llm EVENT_ATTENTENCE_TEMPLATE (make_prompt_dict ed exs) posts)"
    and st: "rd_stratagy (res_list s' ! k) = stratagy_of exs"
    unfolding job_record_def by auto
  moreover have "pd_examples (make_prompt_dict ed exs) = exs"
    by (simp add: make_prompt_dict_def)
  moreover from st stratagy_of_iff [of exs]
  have "(rd_stratagy (res_list s' ! k) = ''few shot'') = (exs \<noteq> [])"
    and "(rd_stratagy (res_list s' ! k) = ''zero shot'') = (exs = [])" by simp_all
  ultimately show "\<exists>event ed exs run llm posts.
              jobs (data_dict s) ! k = (event, ed, exs, run) \<and>
              get_X ed run = Inr posts \<and>
              rd_res (res_list s' ! k) =
                fst (predict llm EVENT_ATTENTENCE_TEMPLATE (make_prompt_dict ed exs) posts) \<and>
              pd_examples (make_prompt_dict ed exs) = exs \<and>
              (rd_stratagy (res_list s' ! k) = ''few shot'' \<longleftrightarrow> exs \<noteq> '''') \<and>
              (rd_stratagy (res_list s' ! k) = ''zero shot'' \<longleftrightarrow> exs = '''')"
    using job by blast
qed

lemma demo_run:
  "run_experiment demo_predict demo_state =
     Inr \<lparr>data_dict = [(''e'', demo_event)],
          res_list =
            [\<lparr>rd_event = ''e'', rd_stratagy = ''few shot'', rd_run = ''train'', rd_res = [Num 1],
              rd_f1 = Score 1, rd_precision = Score 1, rd_recall = Score 1, rd_accuracy = Score 1\<rparr>,
             \<lparr>rd_event = ''e'', rd_stratagy = ''few shot'', rd_run = ''test'', rd_res = [Num 1],
              rd_f1 = Score 0, rd_precision = Score 0, rd_recall = Score 0, rd_accuracy = Score 0\<rparr>,
             \<lparr>rd_event = ''e'', rd_stratagy = ''zero shot'', rd_run = ''train'', rd_res = [NaN],
              rd_f1 = Score 0, rd_precision = Score 0, rd_recall = Score 0, rd_accuracy = Score 0\<rparr>,
             \<lparr>rd_event = ''e'', rd_stratagy = ''zero shot'', rd_run = ''test'', rd_res = [NaN],
              rd_f1 = Score 0, rd_precision = Score 0, rd_recall = Score 0, rd_accuracy = Score 0\<rparr>],
          event_llm = (), files = Map.empty\<rparr>"
  by (simp add: run_experiment_def demo_state_def demo_event_def demo_predict_def run_once_def
      get_X_def get_y_def make_prompt_dict_def stratagy_of_def res_clean_def enumerate_simps
      isnan_def f1_score_def precision_score_def recall_score_def accuracy_score_def
      binary_targets_def consistent_def present_labels_def true_pos_def false_pos_def
      false_neg_def ratio_def agree_def)

lemma demo_nth2:
  "jobs (data_dict demo_state) ! 2 = (''e'', demo_event, '''', ''train'')"
  by (simp add: jobs_def event_jobs_def run_jobs_def demo_state_def)

theorem stratagy_follows_examples_witness:
  "\<exists>s'. run_experiment demo_predict demo_state = Inr s' \<and>
      length (res_list s') = 4 \<and>
      rd_stratagy (res_list s' ! 0) = ''few shot'' \<and>
      rd_stratagy (res_list s' ! 2) = ''zero shot'' \<and>
      rd_res (res_list s' ! 2) =
        fst (demo_predict () EVENT_ATTENTENCE_TEMPLATE (make_prompt_dict demo_event '''')
               [''a''])"
proof -
  from demo_run obtain s' where run: "run_experiment demo_predict demo_state = Inr s'"
    and len: "length (res_list s') = 4" by simp
  from stratagy_follows_examples [OF run] len
  have js: "length (jobs (data_dict demo_state)) = 4"
    and all: "\<forall>k<4. \<exists>event ed exs run llm posts.
              jobs (data_dict demo_state) ! k = (event, ed, exs, run) \<and>
              get_X ed run = Inr posts \<and>
              rd_res (res_list s' ! k) =
                fst (demo_predict llm EVENT_ATTENTENCE_TEMPLATE (make_prompt_dict ed exs) posts) \<and>
              pd_examples (make_prompt_dict ed exs) = exs \<and>
              (rd_stratagy (res_list s' ! k) = ''few shot'' \<longleftrightarrow> exs \<noteq> '''') \<and>
              (rd_stratagy (res_list s' ! k) = ''zero shot'' \<longleftrightarrow> exs = '''')"
    by simp_all
  from all [rule_format, of 2] have k2: "rd_stratagy (res_list s' ! 2) = ''zero shot''"
    and r2: "rd_res (res_list s' ! 2) =
        fst (demo_predict () EVENT_ATTENTENCE_TEMPLATE (make_prompt_dict demo_event '''')
               [''a''])"
    by (auto simp: demo_nth2 get_X_def demo_event_def)
  from all [rule_format, of 0] have k0: "rd_stratagy (res_list s' ! 0) = ''few shot''"
    by (auto simp: jobs_def event_jobs_def run_jobs_def demo_state_def demo_event_def)
  from run len k0 k2 r2 show ?thesis by blast
qed

text \<open>
  C5. With a prediction method that returns one value per post, each 0, 1 or NaN, and CSV
  files whose labels are 0 or 1, the notebook runs to its end: \<^verbatim>\<open>res_list\<close> has eight
  records, one per event, prompting strategy and run in the order of the nested loops, and
  the file \<^verbatim>\<open>llm_results.json\<close> holds the encoding of the whole list. Every record has
  the eight keys by its type.
\<close>

theorem eight_records_written:
  assumes "binary_predict predict" and "\<forall>path. snd ` set (read_csv path) \<subseteq> {0, 1}"
  shows "\<exists>s'. run_notebook read_csv clean_text predict json_dumps llm fs = Inr s' \<and>
           length (res_list s') = 8 \<and>
           map (\<lambda>r. (rd_event r, rd_stratagy r, rd_run r)) (res_list s') =
             [(''farnborough'', ''few shot'', ''train''), (''farnborough'', ''few shot'', ''test''),
              (''farnborough'', ''zero shot'', ''train''), (''farnborough'', ''zero shot'', ''test''),
              (''rugby'', ''few shot'', ''train''), (''rugby'', ''few shot'', ''test''),
              (''rugby'', ''zero shot'', ''train''), (''rugby'', ''zero shot'', ''test'')] \<and>
           files s' = fs(''llm_results.json'' \<mapsto> json_dumps (res_list s'))"
proof -
  let ?s0 = "\<lparr>data_dict = load_data_dict read_csv clean_text, res_list = [],
              event_llm = llm, files = fs\<rparr>"
  from assms(2) have "list_all (\<lambda>item. binary_labels (snd item))
      (load_data_dict read_csv clean_text)"
    by (rule load_data_dict_binary)
  from event_loop_total [OF assms(1) this, of "?s0\<lparr>res_list := []\<rparr>"]
  obtain s1 where "event_loop predict (load_data_dict read_csv clean_text)
      (?s0\<lparr>res_list := []\<rparr>) = Inr s1" ..
  then have run: "run_experiment predict ?s0 = Inr s1" by (simp add: run_experiment_def)
  from run_experiment_Inr [OF run]
  have all: "list_all2 (job_record predict) (jobs (load_data_dict read_csv clean_text))
      (res_list s1)" and fs: "files s1 = fs" by simp_all
  from job_record_triples [OF all] notebook_triples [of read_csv clean_text]
  have triples: "map (\<lambda>r. (rd_event r, rd_stratagy r, rd_run r)) (res_list s1) =
             [(''farnborough'', ''few shot'', ''train''), (''farnborough'', ''few shot'', ''test''),
              (''farnborough'', ''zero shot'', ''train''), (''farnborough'', ''zero shot'', ''test''),
              (''rugby'', ''few shot'', ''train''), (''rugby'', ''few shot'', ''test''),
              (''rugby'', ''zero shot'', ''train''), (''rugby'', ''zero shot'', ''test'')]"
    by simp
  then have "length (map (\<lambda>r. (rd_event r, rd_stratagy r, rd_run r)) (res_list s1)) = 8"
    by simp
  then have len: "length (res_list s1) = 8" by simp
  let ?s' = "write_results json_dumps s1"
  from run have "run_notebook read_csv clean_text predict json_dumps llm fs = Inr ?s'"
    by (simp add: run_notebook_def)
  moreover have "res_list ?s' = res_list s1" by (simp add: write_results_def)
  moreover from fs have "files ?s' = fs(''llm_results.json'' \<mapsto> json_dumps (res_list ?s'))"
    by (simp add: write_results_def)
  ultimately show ?thesis using len triples by (intro exI [of _ ?s']) simp
qed

lemma demo_predict_binary: "binary_predict demo_predict"
  by (auto simp: binary_predict_def demo_predict_def)

theorem eight_records_written_witness:
  "\<exists>s'. run_notebook demo_csv (\<lambda>text ws. text) demo_predict (\<lambda>rs. ''[...]'') () Map.empty = Inr s' \<and>
      length (res_list s') = 8 \<and>
      map rd_event (res_list s') =
        [''farnborough'', ''farnborough'', ''farnborough'', ''farnborough'',
         ''rugby'', ''rugby'', ''rugby'', ''rugby''] \<and>
      map rd_run (res_list s') =
        [''train'', ''test'', ''train'', ''test'', ''train'', ''test'', ''train'', ''test''] \<and>
      files s' ''llm_results.json'' = Some ''[...]''"
proof -
  have labels: "\<forall>path. snd ` set (demo_csv path) \<subseteq> {0, 1}" by (simp add: demo_csv_def)
  from eight_records_written [OF demo_predict_binary labels,
      of "\<lambda>text ws. text" "\<lambda>rs. ''[...]''" "()" Map.empty]
  obtain s' where all: "run_notebook demo_csv (\<lambda>text ws. text) demo_predict (\<lambda>rs. ''[...]'') ()
        Map.empty = Inr s' \<and>
      length (res_list s') = 8 \<and>
      map (\<lambda>r. (rd_event r, rd_stratagy r, rd_run r)) (res_list s') =
             [(''farnborough'', ''few shot'', ''train''), (''farnborough'', ''few shot'', ''test''),
              (''farnborough'', ''zero shot'', ''train''), (''farnborough'', ''zero shot'', ''test''),
              (''rugby'', ''few shot'', ''train''), (''rugby'', ''few shot'', ''test''),
              (''rugby'', ''zero shot'', ''train''), (''rugby'', ''zero shot'', ''test'')] \<and>
      files s' = Map.empty(''llm_results.json'' \<mapsto> ''[...]'')" ..
  from all have run: "run_notebook demo_csv (\<lambda>text ws. text) demo_predict (\<lambda>rs. ''[...]'') ()
        Map.empty = Inr s'" by (rule conjunct1)
  from all have len: "length (res_list s') = 8" by (elim conjE)
  from all have triples: "map (\<lambda>r. (rd_event r, rd_stratagy r, rd_run r)) (res_list s') =
             [(''farnborough'', ''few shot'', ''train''), (''farnborough'', ''few shot'', ''test''),
              (''farnborough'', ''zero shot'', ''train''), (''farnborough'', ''zero shot'', ''test''),
              (''rugby'', ''few shot'', ''train''), (''rugby'', ''few shot'', ''test''),
              (''rugby'', ''zero shot'', ''train''), (''rugby'', ''zero shot'', ''test'')]"
    by (elim conjE)
  from all have fs: "files s' = Map.empty(''llm_results.json'' \<mapsto> ''[...]'')"
    by (elim conjE)
  from triples have "map fst (map (\<lambda>r. (rd_event r, rd_stratagy r, rd_run r)) (res_list s')) =
        [''farnborough'', ''farnborough'', ''farnborough'', ''farnborough'',
         ''rugby'', ''rugby'', ''rugby'', ''rugby'']" by simp
  then have ev: "map rd_event (res_list s') =
        [''farnborough'', ''farnborough'', ''farnborough'', ''farnborough'',
         ''rugby'', ''rugby'', ''rugby'', ''rugby'']" by (simp add: comp_def)
  from triples have "map (snd \<circ> snd) (map (\<lambda>r. (rd_event r, rd_stratagy r, rd_run r)) (res_list s')) =
        [''train'', ''test'', ''train'', ''test'', ''train'', ''test'', ''train'', ''test'']"
    by simp
  then have rn: "map rd_run (res_list s') =
        [''train'', ''test'', ''train'', ''test'', ''train'', ''test'', ''train'', ''test'']"
    by (simp add: comp_def)
  from fs have out: "files s' ''llm_results.json'' = Some ''[...]''" by simp
  from run len ev rn out show ?thesis by (intro exI [of _ s'] conjI)
qed









text \<open>
  C10. One pass of the loop body leaves \<^verbatim>\<open>data_dict\<close> as it was and appends a record whose
  \<^verbatim>\<open>res\<close> is the list the prediction method returned; so after the whole loop
  \<^verbatim>\<open>data_dict\<close>, and with it every \<^verbatim>\<open>y_train\<close> and \<^verbatim>\<open>y_test\<close>, is unchanged, and every
  record holds the raw predictions of its iteration.
\<close>

theorem labels_and_raw_predictions_kept:
  "(run_once predict event ed exs run s = Inr s1 \<longrightarrow>
      data_dict s1 = data_dict s \<and>
      (\<exists>posts r.
         get_X ed run = Inr posts \<and> res_list s1 = res_list s @ [r] \<and>
         rd_res r = fst (predict (event_llm s) EVENT_ATTENTENCE_TEMPLATE
                           (make_prompt_dict ed exs) posts))) \<and>
   (run_experiment predict s = Inr s' \<longrightarrow>
      data_dict s' = data_dict s \<and>
      map (\<lambda>item. (y_train (snd item), y_test (snd item))) (data_dict s') =
        map (\<lambda>item. (y_train (snd item), y_test (snd item))) (data_dict s) \<and>
      length (res_list s') = length (jobs (data_dict s)) \<and>
      (\<forall>k<length (res_list s').
         \<exists>event ed exs run llm posts.
           jobs (data_dict s) ! k = (event, ed, exs, run) \<and>
           get_X ed run = Inr posts \<and>
           rd_res (res_list s' ! k) =
             fst (predict llm EVENT_ATTENTENCE_TEMPLATE (make_prompt_dict ed exs) posts)))"
proof (intro conjI impI)
  assume once: "run_once predict event ed exs run s = Inr s1"
  from run_once_exact [OF once] obtain r posts where X: "get_X ed run = Inr posts"
    and raw: "rd_res r = fst (predict (event_llm s) EVENT_ATTENTENCE_TEMPLATE
                             (make_prompt_dict ed exs) posts)"
    and s1: "s1 = s\<lparr>res_list := res_list s @ [r],
                  event_llm := snd (predict (event_llm s) EVENT_ATTENTENCE_TEMPLATE
                                      (make_prompt_dict ed exs) posts)\<rparr>"
    by blast
  from s1 show "data_dict s1 = data_dict s" by simp
  from s1 have "res_list s1 = res_list s @ [r]" by simp
  with X raw show "\<exists>posts r.
         get_X ed run = Inr posts \<and> res_list s1 = res_list s @ [r] \<and>
         rd_res r = fst (predict (event_llm s) EVENT_ATTENTENCE_TEMPLATE
                           (make_prompt_dict ed exs) posts)"
    by blast
next
  assume run: "run_experiment predict s = Inr s'"
  from run_experiment_Inr [OF run] show dd: "data_dict s' = data_dict s" by simp
  then show "map (\<lambda>item. (y_train (snd item), y_test (snd item))) (data_dict s') =
        map (\<lambda>item. (y_train (snd item), y_test (snd item))) (data_dict s)" by simp
  from run show "length (res_list s') = length (jobs (data_dict s))"
    by (rule run_experiment_nth(1))
  show "\<forall>k<length (res_list s').
         \<exists>event ed exs run llm posts.
           jobs (data_dict s) ! k = (event, ed, exs, run) \<and>
           get_X ed run = Inr posts \<and>
           rd_res (res_list s' ! k) =
             fst (predict llm EVENT_ATTENTENCE_TEMPLATE (make_prompt_dict ed exs) posts)"
  proof (intro allI impI)
    fix k assume k: "k < length (res_list s')"
    obtain event ed exs run where job: "jobs (data_dict s) ! k = (event, ed, exs, run)"
      by (cases "jobs (data_dict s) ! k")
    from run_experiment_nth(2) [OF run k] job
    obtain llm posts where "get_X ed run = Inr posts"
      and "rd_res (res_list s' ! k) =
             fst (predict llm EVENT_ATTENTENCE_TEMPLATE (make_prompt_dict ed exs) posts)"
      unfolding job_record_def by auto
    with job show "\<exists>event ed exs run llm posts.
           jobs (data_dict s) ! k = (event, ed, exs, run) \<and>
           get_X ed run = Inr posts \<and>
           rd_res (res_list s' ! k) =
             fst (predict llm EVENT_ATTENTENCE_TEMPLATE (make_prompt_dict ed exs) posts)"
      by blast
  qed
qed

lemma demo_once:
  "run_once demo_predict ''e'' demo_event '''' ''test'' demo_state =
     Inr (demo_state\<lparr>res_list :=
            [\<lparr>rd_event = ''e'', rd_stratagy = ''zero shot'', rd_run = ''test'', rd_res = [NaN],
              rd_f1 = Score 0, rd_precision = Score 0, rd_recall = Score 0,
              rd_accuracy = Score 0\<rparr>]\<rparr>)"
  by (simp add: demo_state_def demo_event_def demo_predict_def run_once_def
      get_X_def get_y_def make_prompt_dict_def stratagy_of_def res_clean_def enumerate_simps
      isnan_def f1_score_def precision_score_def recall_score_def accuracy_score_def
      binary_targets_def consistent_def present_labels_def true_pos_def false_pos_def
      false_neg_def ratio_def agree_def)

theorem labels_and_raw_predictions_kept_witness:
  "\<exists>s1 s'. run_once demo_predict ''e'' demo_event '''' ''test'' demo_state = Inr s1 \<and>
      data_dict s1 = [(''e'', demo_event)] \<and> map rd_res (res_list s1) = [[NaN]] \<and>
      run_experiment demo_predict demo_state = Inr s' \<and>
      data_dict s' = [(''e'', demo_event)] \<and>
      map (\<lambda>item. (y_train (snd item), y_test (snd item))) (data_dict s') = [([1], [0])]"
proof -
  from demo_once obtain s1 where
    once: "run_once demo_predict ''e'' demo_event '''' ''test'' demo_state = Inr s1"
    and raw: "map rd_res (res_list s1) = [[NaN]]" by (simp add: demo_state_def)
  from demo_run obtain s' where run: "run_experiment demo_predict demo_state = Inr s'" by simp
  note kept = labels_and_raw_predictions_kept
    [of demo_predict "''e''" demo_event "''''" "''test''" demo_state s1 s']
  from kept [THEN conjunct1, rule_format, OF once]
  have "data_dict s1 = data_dict demo_state" by (rule conjunct1)
  then have d1: "data_dict s1 = [(''e'', demo_event)]" by (simp add: demo_state_def)
  note loop = kept [THEN conjunct2, rule_format, OF run]
  from loop have "data_dict s' = data_dict demo_state" by (rule conjunct1)
  then have d2: "data_dict s' = [(''e'', demo_event)]" by (simp add: demo_state_def)
  from loop have "map (\<lambda>item. (y_train (snd item), y_test (snd item))) (data_dict s') =
      map (\<lambda>item. (y_train (snd item), y_test (snd item))) (data_dict demo_state)"
    by (elim conjE)
  then have d3: "map (\<lambda>item. (y_train (snd item), y_test (snd item))) (data_dict s') =
      [([1], [0])]"
    by (simp add: demo_state_def demo_event_def)
  from once d1 raw run d2 d3 show ?thesis by (intro exI [of _ s1] exI [of _ s'] conjI)
qed

section \<open>Facts about the prediction wrapper\<close>

lemma batches_Nil: "batches n [] = []"
  by (simp add: batches.simps)

lemma batches_step:
  "0 < n \<Longrightarrow> xs \<noteq> [] \<Longrightarrow> batches n xs = take n xs # batches n (drop n xs)"
  by (subst batches.simps) simp

lemma concat_batches: "0 < n \<Longrightarrow> concat (batches n xs) = xs"
proof (induction n xs rule: batches.induct)
  case (1 n xs)
  show ?case
  proof (cases "xs = []")
    case True
    then show ?thesis by (simp add: batches_Nil)
  next
    case False
    with "1.prems" have "batches n xs = take n xs # batches n (drop n xs)"
      by (simp add: batches_step)
    moreover from "1.IH" "1.prems" False have "concat (batches n (drop n xs)) = drop n xs"
      by simp
    ultimately show ?thesis by simp
  qed
qed

lemma length_generated:
  assumes "\<forall>ps. length (generate ps) = length ps" and "0 < n"
  shows "length (concat (map generate (batches n xs))) = length xs"
proof -
  have "length (concat (map generate bs)) = length (concat bs)" for bs
    using assms(1) by (induction bs) simp_all
  with concat_batches [OF assms(2), of xs] show ?thesis by simp
qed

lemma nth_generated:
  assumes gen: "\<forall>ps. length (generate ps) = length ps"
  shows "0 < n \<Longrightarrow> i < length xs \<Longrightarrow>
         concat (map generate (batches n xs)) ! i =
           generate (take n (drop (i div n * n) xs)) ! (i mod n)"
proof (induction n xs arbitrary: i rule: batches.induct)
  case (1 n xs)
  from "1.prems" have n: "0 < n" and ne: "xs \<noteq> []" by auto
  then have step: "batches n xs = take n xs # batches n (drop n xs)"
    by (rule batches_step)
  from gen have len: "length (generate (take n xs)) = min (length xs) n" by simp
  show ?case
  proof (cases "i < n")
    case True
    with "1.prems" len have "i < length (generate (take n xs))" by simp
    with step True show ?thesis by (simp add: nth_append)
  next
    case False
    with "1.prems" have full: "length (generate (take n xs)) = n" using len by simp
    from False "1.prems" have rest: "i - n < length (drop n xs)" by simp
    from False n have "i div n = Suc ((i - n) div n)" by (simp add: le_div_geq)
    then have d: "(i - n) div n * n + n = i div n * n" by simp
    from False n have m: "(i - n) mod n = i mod n" by (simp add: le_mod_geq)
    from "1.IH" [of "i - n"] n ne rest
    have "concat (map generate (batches n (drop n xs))) ! (i - n) =
        generate (take n (drop ((i - n) div n * n) (drop n xs))) ! ((i - n) mod n)"
      by simp
    with d m have "concat (map generate (batches n (drop n xs))) ! (i - n) =
        generate (take n (drop (i div n * n) xs)) ! (i mod n)"
      by simp
    with step full False show ?thesis by (simp add: nth_append)
  qed
qed

lemma parse_output_range: "parse_output output \<in> {Num 0, Num 1, NaN}"
  by (simp add: parse_output_def)

text \<open>
  C3. With a positive batch size and a model that answers every prompt of a batch, the
  prediction returns one value per post, in the order of the posts: the \<open>i\<close>-th raw output
  is the model's answer at place \<open>i mod n\<close> of batch \<open>i div n\<close>, and the \<open>i\<close>-th value is 1
  where that output is \<^verbatim>\<open>Yes\<close>, 0 where it is \<^verbatim>\<open>No\<close> and NaN for any other output.
\<close>

theorem predict_one_value_per_post:
  assumes "0 < batch_size llm" and "\<forall>ps. length (generate ps) = length ps"
  shows "\<exists>res llm'.
           EventLLM_predict format generate llm prompt_template prompt_inputs posts = (res, llm') \<and>
           length res = length posts \<and> length (llm_out llm') = length posts \<and>
           set res \<subseteq> {Num 0, Num 1, NaN} \<and>
           (\<forall>i<length posts.
              llm_out llm' ! i =
                generate (take (batch_size llm)
                            (drop (i div batch_size llm * batch_size llm)
                               (map (format prompt_template prompt_inputs) posts))) !
                  (i mod batch_size llm) \<and>
              (llm_out llm' ! i = ''Yes'' \<longrightarrow> res ! i = Num 1) \<and>
              (llm_out llm' ! i = ''No'' \<longrightarrow> res ! i = Num 0) \<and>
              (llm_out llm' ! i \<noteq> ''Yes'' \<and> llm_out llm' ! i \<noteq> ''No'' \<longrightarrow> res ! i = NaN))"
proof -
  define filled where "filled = map (format prompt_template prompt_inputs) posts"
  define outputs where "outputs = concat (map generate (batches (batch_size llm) filled))"
  have run: "EventLLM_predict format generate llm prompt_template prompt_inputs posts =
      (map parse_output outputs, llm\<lparr>llm_out := outputs\<rparr>)"
    by (simp add: EventLLM_predict_def outputs_def filled_def Let_def)
  from assms(2,1) have "length outputs = length filled"
    unfolding outputs_def by (rule length_generated)
  then have len: "length outputs = length posts" by (simp add: filled_def)
  have range: "set (map parse_output outputs) \<subseteq> {Num 0, Num 1, NaN}"
    using parse_output_range by auto
  have each: "outputs ! i =
        generate (take (batch_size llm)
                    (drop (i div batch_size llm * batch_size llm)
                       (map (format prompt_template prompt_inputs) posts))) !
          (i mod batch_size llm) \<and>
      (outputs ! i = ''Yes'' \<longrightarrow> map parse_output outputs ! i = Num 1) \<and>
      (outputs ! i = ''No'' \<longrightarrow> map parse_output outputs ! i = Num 0) \<and>
      (outputs ! i \<noteq> ''Yes'' \<and> outputs ! i \<noteq> ''No'' \<longrightarrow> map parse_output outputs ! i = NaN)"
    if i: "i < length posts" for i
  proof -
    from i have "i < length filled" by (simp add: filled_def)
    with nth_generated [OF assms(2) assms(1)]
    have "outputs ! i = generate (take (batch_size llm)
        (drop (i div batch_size llm * batch_size llm) filled)) ! (i mod batch_size llm)"
      unfolding outputs_def by blast
    moreover from i len have "map parse_output outputs ! i = parse_output (outputs ! i)"
      by simp
    ultimately show ?thesis by (simp add: parse_output_def filled_def)
  qed
  show ?thesis
  proof (intro exI conjI)
    show "EventLLM_predict format generate llm prompt_template prompt_inputs posts =
      (map parse_output outputs, llm\<lparr>llm_out := outputs\<rparr>)" by (rule run)
    show "length (map parse_output outputs) = length posts" using len by simp
    show "length (llm_out (llm\<lparr>llm_out := outputs\<rparr>)) = length posts" using len by simp
    show "set (map parse_output outputs) \<subseteq> {Num 0, Num 1, NaN}" by (rule range)
    show "\<forall>i<length posts.
              llm_out (llm\<lparr>llm_out := outputs\<rparr>) ! i =
                generate (take (batch_size llm)
                            (drop (i div batch_size llm * batch_size llm)
                               (map (format prompt_template prompt_inputs) posts))) !
                  (i mod batch_size llm) \<and>
              (llm_out (llm\<lparr>llm_out := outputs\<rparr>) ! i = ''Yes'' \<longrightarrow>
                 map parse_output outputs ! i = Num 1) \<and>
              (llm_out (llm\<lparr>llm_out := outputs\<rparr>) ! i = ''No'' \<longrightarrow>
                 map parse_output outputs ! i = Num 0) \<and>
              (llm_out (llm\<lparr>llm_out := outputs\<rparr>) ! i \<noteq> ''Yes'' \<and>
               llm_out (llm\<lparr>llm_out := outputs\<rparr>) ! i \<noteq> ''No'' \<longrightarrow>
                 map parse_output outputs ! i = NaN)"
      using each by simp
  qed
qed

theorem predict_one_value_per_post_witness:
  "\<exists>res llm'.
     EventLLM_predict (\<lambda>t inputs post. post) demo_generate \<lparr>batch_size = 2, llm_out = []\<rparr>
       EVENT_ATTENTENCE_TEMPLATE (make_prompt_dict demo_event ''x'') [''p1'', ''p2'', ''p3''] =
       (res, llm') \<and>
     length res = 3 \<and> llm_out llm' = [''Yes'', ''No'', ''Maybe''] \<and>
     res = [Num 1, Num 0, NaN]"
proof -
  have h1: "0 < batch_size \<lparr>batch_size = 2, llm_out = []\<rparr>" by simp
  have h2: "\<forall>ps. length (demo_generate ps) = length ps" by (simp add: demo_generate_def)
  from predict_one_value_per_post [OF h1 h2, of "\<lambda>t inputs post. post"
      EVENT_ATTENTENCE_TEMPLATE "make_prompt_dict demo_event ''x''" "[''p1'', ''p2'', ''p3'']"]
  obtain res llm' where
    run: "EventLLM_predict (\<lambda>t inputs post. post) demo_generate \<lparr>batch_size = 2, llm_out = []\<rparr>
       EVENT_ATTENTENCE_TEMPLATE (make_prompt_dict demo_event ''x'') [''p1'', ''p2'', ''p3''] =
       (res, llm')"
    and len: "length res = length [''p1'', ''p2'', ''p3'']"
    by (elim exE conjE) (rule that)
  have b: "batches 2 [''p1'', ''p2'', ''p3''] = [[''p1'', ''p2''], [''p3'']]"
    by (simp add: batches_step batches_Nil)
  have "EventLLM_predict (\<lambda>t inputs post. post) demo_generate \<lparr>batch_size = 2, llm_out = []\<rparr>
       EVENT_ATTENTENCE_TEMPLATE (make_prompt_dict demo_event ''x'') [''p1'', ''p2'', ''p3''] =
       ([Num 1, Num 0, NaN], \<lparr>batch_size = 2, llm_out = [''Yes'', ''No'', ''Maybe'']\<rparr>)"
    by (simp add: EventLLM_predict_def b demo_generate_def parse_output_def Let_def)
  with run have "(res, llm') =
      ([Num 1, Num 0, NaN], \<lparr>batch_size = 2, llm_out = [''Yes'', ''No'', ''Maybe'']\<rparr>)"
    by simp
  then have "res = [Num 1, Num 0, NaN]" and "llm_out llm' = [''Yes'', ''No'', ''Maybe'']"
    by simp_all
  with run len show ?thesis by (intro exI [of _ res] exI [of _ llm'] conjI) simp_all
qed

section \<open>Facts about the data cleaning\<close>

lemma drop_duplicates_names:
  "set (map site_name (drop_duplicates seen rows)) = set (map site_name rows) - set seen"
  by (induction rows arbitrary: seen) auto

lemma drop_duplicates_distinct: "distinct (map site_name (drop_duplicates seen rows))"
proof (induction rows arbitrary: seen)
  case Nil
  then show ?case by simp
next
  case (Cons row rows)
  have "site_name row \<notin> set (map site_name (drop_duplicates (site_name row # seen) rows))"
    by (simp only: drop_duplicates_names) simp
  with Cons show ?case by simp
qed

lemma drop_duplicates_subset: "set (drop_duplicates seen rows) \<subseteq> set rows"
  by (induction rows arbitrary: seen) auto

text \<open>
  C8. The rows that \<^verbatim>\<open>clean_alva_data\<close> returns have pairwise different site names; their
  site names are the standardised site names of the file, and every returned row is a
  standardised row of the file.
\<close>

theorem clean_alva_data_distinct_sites:
  "distinct (map site_name (clean_alva_data read_csv standardise alva_data_path)) \<and>
   set (map site_name (clean_alva_data read_csv standardise alva_data_path)) =
     set (map (\<lambda>row. standardise (site_name row)) (read_csv alva_data_path)) \<and>
   set (clean_alva_data read_csv standardise alva_data_path) \<subseteq>
     set (map (\<lambda>row. row\<lparr>site_name := standardise (site_name row)\<rparr>) (read_csv alva_data_path))"
proof (intro conjI)
  show "distinct (map site_name (clean_alva_data read_csv standardise alva_data_path))"
    unfolding clean_alva_data_def by (rule drop_duplicates_distinct)
  show "set (map site_name (clean_alva_data read_csv standardise alva_data_path)) =
     set (map (\<lambda>row. standardise (site_name row)) (read_csv alva_data_path))"
    unfolding clean_alva_data_def by (simp only: drop_duplicates_names) (simp add: comp_def)
  show "set (clean_alva_data read_csv standardise alva_data_path) \<subseteq>
     set (map (\<lambda>row. row\<lparr>site_name := standardise (site_name row)\<rparr>) (read_csv alva_data_path))"
    unfolding clean_alva_data_def by (rule drop_duplicates_subset)
qed

end
